theory Spec2Isabelle
  imports Complex_Main "HOL-Library.Product_Lexorder" "HOL-Library.Multiset"
begin

section \<open>Column values\<close>

text \<open>
  The pandas columns of the pipeline are float64 columns. A cell is modelled as an exact
  rational number or one of the three special values of the format. Finite arithmetic is
  exact (no rounding, no overflow) and there is a single zero, taken as the positive one
  when it is a divisor; everything that the special values do in sums, products, quotients
  and comparisons is written out.
\<close>

datatype fval = Fin rat | PInf | NInf | NaN

fun fneg :: "fval \<Rightarrow> fval" where
  "fneg (Fin a) = Fin (- a)"
| "fneg PInf = NInf"
| "fneg NInf = PInf"
| "fneg NaN = NaN"

fun fadd :: "fval \<Rightarrow> fval \<Rightarrow> fval" where
  "fadd NaN _ = NaN"
| "fadd _ NaN = NaN"
| "fadd PInf NInf = NaN"
| "fadd NInf PInf = NaN"
| "fadd PInf _ = PInf"
| "fadd _ PInf = PInf"
| "fadd NInf _ = NInf"
| "fadd _ NInf = NInf"
| "fadd (Fin a) (Fin b) = Fin (a + b)"

definition fsub :: "fval \<Rightarrow> fval \<Rightarrow> fval" where
  "fsub a b = fadd a (fneg b)"

text \<open>The sign of a cell: \<open>1\<close>, \<open>0\<close> or \<open>-1\<close>; used by products and quotients.\<close>

fun fsign :: "fval \<Rightarrow> int" where
  "fsign (Fin a) = (if a < 0 then - 1 else if a = 0 then 0 else 1)"
| "fsign PInf = 1"
| "fsign NInf = - 1"
| "fsign NaN = 0"

definition inf_of_sign :: "int \<Rightarrow> fval" where
  "inf_of_sign s = (if s < 0 then NInf else PInf)"

fun fmul :: "fval \<Rightarrow> fval \<Rightarrow> fval" where
  "fmul NaN _ = NaN"
| "fmul _ NaN = NaN"
| "fmul (Fin a) (Fin b) = Fin (a * b)"
| "fmul a b = (if fsign a = 0 \<or> fsign b = 0 then NaN else inf_of_sign (fsign a * fsign b))"

fun fdiv :: "fval \<Rightarrow> fval \<Rightarrow> fval" where
  "fdiv NaN _ = NaN"
| "fdiv _ NaN = NaN"
| "fdiv (Fin a) (Fin b) =
     (if b = 0 then (if a = 0 then NaN else inf_of_sign (fsign (Fin a))) else Fin (a / b))"
| "fdiv (Fin a) _ = Fin 0"
| "fdiv a (Fin b) = inf_of_sign (fsign a * (if b < 0 then - 1 else 1))"
| "fdiv _ _ = NaN"

text \<open>Comparison \<open><\<close>: false as soon as one side is NaN.\<close>

fun flt :: "fval \<Rightarrow> fval \<Rightarrow> bool" where
  "flt NaN _ = False"
| "flt _ NaN = False"
| "flt (Fin a) (Fin b) = (a < b)"
| "flt _ NInf = False"
| "flt NInf _ = True"
| "flt PInf _ = False"
| "flt _ PInf = True"

text \<open>\<open>Series.fillna(0)\<close> and \<open>Series.replace([inf, -inf], 0)\<close>, cell by cell.\<close>

definition fillna0 :: "fval \<Rightarrow> fval" where
  "fillna0 v = (if v = NaN then Fin 0 else v)"

definition replace_inf0 :: "fval \<Rightarrow> fval" where
  "replace_inf0 v = (if v = PInf \<or> v = NInf then Fin 0 else v)"

text \<open>\<open>Series.clip(lower=lo)\<close> and \<open>Series.clip(lower=lo, upper=hi)\<close>; NaN stays NaN.\<close>

definition clip_lower :: "fval \<Rightarrow> fval \<Rightarrow> fval" where
  "clip_lower lo v = (if flt v lo then lo else v)"

definition clip :: "fval \<Rightarrow> fval \<Rightarrow> fval \<Rightarrow> fval" where
  "clip lo hi v = (let u = clip_lower lo v in if flt hi u then hi else u)"

section \<open>Step 3: monthly aggregates and the merged series\<close>

text \<open>
  A monthly aggregate (\<open>enrol_m\<close>, \<open>demo_m\<close>, \<open>bio_m\<close>) is the result of
  \<open>groupby([...]).agg(sum)\<close>: one row per key, the keys in sorted order, the activity
  summed over the raw rows of the key (the sum skips NaN). A row is a key and its activity;
  the key \<open>'k\<close> stands for the five grouping columns, which are also the join columns.
\<close>

definition nansum :: "fval list \<Rightarrow> fval" where
  "nansum vs = foldl fadd (Fin 0) (filter (\<lambda>v. v \<noteq> NaN) vs)"

definition groupby_sum :: "('k::linorder \<times> fval) list \<Rightarrow> ('k \<times> fval) list" where
  "groupby_sum raw =
     map (\<lambda>k. (k, nansum (map snd (filter (\<lambda>r. fst r = k) raw))))
         (sort (remdups (map fst raw)))"

text \<open>
  \<open>left.merge(right, on=key, how="outer")\<close> for two frames with one row per key: every
  key of the left frame with the right frame's value when there is one, then the keys that
  only the right frame has; the result is sorted by key. A cell with no source row is
  missing (\<open>None\<close> here, NaN in the frame).
\<close>

definition merge_outer ::
  "('k::linorder \<times> 'a) list \<Rightarrow> ('k \<times> 'b) list \<Rightarrow> ('k \<times> 'a option \<times> 'b option) list" where
  "merge_outer left right =
     sort_key fst
       (map (\<lambda>(k, a). (k, Some a, map_of right k)) left @
        map (\<lambda>(k, b). (k, None, Some b)) (filter (\<lambda>(k, b). map_of left k = None) right))"

definition cell :: "fval option \<Rightarrow> fval" where
  "cell c = (case c of None \<Rightarrow> NaN | Some v \<Rightarrow> v)"

record 'k merged_row =
  region_month :: 'k
  enrol_activity :: fval
  demo_activity :: fval
  bio_activity :: fval
  total_activity :: fval

text \<open>
  The two merges, \<open>fillna(0)\<close> on the three activity columns, and \<open>total_activity\<close> as
  their sum.
\<close>

definition filled_row :: "'k \<Rightarrow> fval \<Rightarrow> fval \<Rightarrow> fval \<Rightarrow> 'k merged_row" where
  "filled_row k e d b =
     (let e0 = fillna0 e; d0 = fillna0 d; b0 = fillna0 b
      in \<lparr>region_month = k, enrol_activity = e0, demo_activity = d0, bio_activity = b0,
          total_activity = fadd (fadd e0 d0) b0\<rparr>)"

definition merged_series ::
  "('k::linorder \<times> fval) list \<Rightarrow> ('k \<times> fval) list \<Rightarrow> ('k \<times> fval) list \<Rightarrow> 'k merged_row list" where
  "merged_series enrol_m demo_m bio_m =
     (let df1 = map (\<lambda>(k, e, d). (k, (cell e, cell d))) (merge_outer enrol_m demo_m);
          df2 = merge_outer df1 bio_m
      in map (\<lambda>(k, ed, b).
                case ed of None \<Rightarrow> filled_row k NaN NaN (cell b)
                         | Some (e, d) \<Rightarrow> filled_row k e d (cell b)) df2)"

section \<open>Step 3: rolling baseline and suppression ratio of one region\<close>

text \<open>
  \<open>df.groupby("region_id")["total_activity"].transform(lambda x: x.rolling(6,
  min_periods=3).mean())\<close> hands the function the \<open>total_activity\<close> column of one region,
  in the row order of the sorted frame (month order). The trailing window of row \<open>i\<close> holds
  the rows \<open>i - w + 1 .. i\<close> that exist. The rolling aggregation counts as observations the
  cells that are neither NaN nor infinite (it turns infinities into NaN before it
  aggregates); with fewer than \<open>min_periods\<close> observations the result is NaN, otherwise it
  is the mean of the observations.
\<close>

definition window :: "nat \<Rightarrow> 'a list \<Rightarrow> nat \<Rightarrow> 'a list" where
  "window w xs i = drop (Suc i - w) (take (Suc i) xs)"

fun observations :: "fval list \<Rightarrow> rat list" where
  "observations [] = []"
| "observations (Fin a # vs) = a # observations vs"
| "observations (_ # vs) = observations vs"

definition mean :: "rat list \<Rightarrow> rat" where
  "mean obs = sum_list obs / of_nat (length obs)"

definition rolling_mean_at :: "nat \<Rightarrow> nat \<Rightarrow> fval list \<Rightarrow> nat \<Rightarrow> fval" where
  "rolling_mean_at w min_periods xs i =
     (let obs = observations (window w xs i)
      in if min_periods \<le> length obs \<and> obs \<noteq> [] then Fin (mean obs) else NaN)"

definition rolling_mean :: "nat \<Rightarrow> nat \<Rightarrow> fval list \<Rightarrow> fval list" where
  "rolling_mean w min_periods xs = map (rolling_mean_at w min_periods xs) [0..<length xs]"

definition baseline_ma6 :: "fval list \<Rightarrow> fval list" where
  "baseline_ma6 x = rolling_mean 6 3 x"

text \<open>
  \<open>df["suppression_ratio"] = df["total_activity"] / df["baseline_total_ma6"]\<close>, then
  \<open>.replace([inf, -inf], 0).fillna(0)\<close>.
\<close>

definition ratio_cell :: "fval \<Rightarrow> fval \<Rightarrow> fval" where
  "ratio_cell activity baseline = fillna0 (replace_inf0 (fdiv activity baseline))"

record 'k ts_row = "'k merged_row" +
  baseline_total_ma6 :: fval
  suppression_ratio :: fval

definition ts_of :: "'k merged_row \<Rightarrow> fval \<Rightarrow> 'k ts_row" where
  "ts_of r b =
     \<lparr>region_month = region_month r,
      enrol_activity = enrol_activity r,
      demo_activity = demo_activity r,
      bio_activity = bio_activity r,
      total_activity = total_activity r,
      baseline_total_ma6 = b,
      suppression_ratio = ratio_cell (total_activity r) b\<rparr>"

text \<open>The rows of one region, in month order, with the two new columns.\<close>

definition step3_region :: "'k merged_row list \<Rightarrow> 'k ts_row list" where
  "step3_region rows =
     map (\<lambda>(r, b). ts_of r b) (zip rows (baseline_ma6 (map total_activity rows)))"

section \<open>Step 4: silence detection of one region\<close>

text \<open>
  \<open>compute_consecutive_runs\<close>: the loop carries \<open>count\<close> and the list \<open>out\<close>; one
  iteration is \<open>run_step\<close>.
\<close>

definition run_step :: "bool \<Rightarrow> nat \<times> nat list \<Rightarrow> nat \<times> nat list" where
  "run_step v st =
     (let count = (if v then fst st + 1 else 0) in (count, snd st @ [count]))"

definition compute_consecutive_runs :: "bool list \<Rightarrow> nat list" where
  "compute_consecutive_runs flag_series = snd (fold run_step flag_series (0, []))"

definition flag_moderate_of :: "fval \<Rightarrow> bool" where
  "flag_moderate_of ratio = flt ratio (Fin 0.60)"

definition flag_severe_of :: "fval \<Rightarrow> bool" where
  "flag_severe_of ratio = flt ratio (Fin 0.40)"

datatype state_label = Normal | Moderate | Severe

text \<open>
  The label column starts as \<open>Normal\<close> and is overwritten twice, in this order: rows with
  \<open>moderate_run >= 2\<close> get \<open>Moderate\<close>, then rows with \<open>severe_run >= 3\<close> get \<open>Severe\<close>.
\<close>

definition silence_state_of :: "nat \<Rightarrow> nat \<Rightarrow> state_label" where
  "silence_state_of m_run s_run =
     (let st = Normal;
          st = (if 2 \<le> m_run then Moderate else st);
          st = (if 3 \<le> s_run then Severe else st)
      in st)"

definition silence_duration_of :: "state_label \<Rightarrow> nat \<Rightarrow> nat \<Rightarrow> nat" where
  "silence_duration_of st m_run s_run =
     (let d = 0;
          d = (if st = Moderate then m_run else d);
          d = (if st = Severe then s_run else d)
      in d)"

text \<open>
  The alert column starts as 0 and is set to 1 by three assignments: \<open>severe_run == 3\<close>,
  \<open>moderate_run == 2\<close>, \<open>silence_state == "Severe"\<close>.
\<close>

definition alert_flag_of :: "state_label \<Rightarrow> nat \<Rightarrow> nat \<Rightarrow> nat" where
  "alert_flag_of st m_run s_run =
     (let a = 0;
          a = (if s_run = 3 then 1 else a);
          a = (if m_run = 2 then 1 else a);
          a = (if st = Severe then 1 else a)
      in a)"

definition depth_pct_of :: "fval \<Rightarrow> fval" where
  "depth_pct_of ratio = clip_lower (Fin 0) (fmul (fsub (Fin 1) ratio) (Fin 100))"

definition szi_of :: "fval \<Rightarrow> fval" where
  "szi_of ratio = clip (Fin 0) (Fin 1) ratio"

record 'k final_row = "'k ts_row" +
  suppression_depth_pct :: fval
  moderate_run :: nat
  severe_run :: nat
  silence_duration_months :: nat
  SZI :: fval
  silence_state :: state_label
  alert_flag :: nat

definition final_of :: "'k ts_row \<Rightarrow> nat \<Rightarrow> nat \<Rightarrow> 'k final_row" where
  "final_of r m_run s_run =
     (let st = silence_state_of m_run s_run
      in \<lparr>region_month = region_month r,
          enrol_activity = enrol_activity r,
          demo_activity = demo_activity r,
          bio_activity = bio_activity r,
          total_activity = total_activity r,
          baseline_total_ma6 = baseline_total_ma6 r,
          suppression_ratio = suppression_ratio r,
          suppression_depth_pct = depth_pct_of (suppression_ratio r),
          moderate_run = m_run,
          severe_run = s_run,
          silence_duration_months = silence_duration_of st m_run s_run,
          SZI = szi_of (suppression_ratio r),
          silence_state = st,
          alert_flag = alert_flag_of st m_run s_run\<rparr>)"

text \<open>
  One region of the final table: the two run columns are
  \<open>groupby("region_id")[flag].transform(compute_consecutive_runs)\<close>, that is
  \<open>compute_consecutive_runs\<close> on the region's flag column in month order.
\<close>

definition step4_region :: "'k ts_row list \<Rightarrow> 'k final_row list" where
  "step4_region rows =
     (let flag_moderate = map (\<lambda>r. flag_moderate_of (suppression_ratio r)) rows;
          flag_severe = map (\<lambda>r. flag_severe_of (suppression_ratio r)) rows;
          m_runs = compute_consecutive_runs flag_moderate;
          s_runs = compute_consecutive_runs flag_severe
      in map (\<lambda>(r, m, s). final_of r m s) (zip rows (zip m_runs s_runs)))"

definition pipeline_region :: "'k merged_row list \<Rightarrow> 'k final_row list" where
  "pipeline_region rows = step4_region (step3_region rows)"

section \<open>The whole table\<close>

text \<open>
  Both scripts sort the frame by \<open>region_id\<close> and month and work group by group
  (\<open>groupby("region_id")\<close>). The key of a row is the pair of its region and its month;
  \<open>by_region\<close> lists the groups of a frame, each with its rows in the frame's order.
\<close>

definition by_region :: "('r \<times> 'm) merged_row list \<Rightarrow> ('r \<times> 'm) merged_row list list" where
  "by_region frame =
     map (\<lambda>g. filter (\<lambda>r. fst (region_month r) = g) frame)
         (remdups (map (\<lambda>r. fst (region_month r)) frame))"

definition final_table ::
  "('r::linorder \<times> 'm::linorder) merged_row list \<Rightarrow> ('r \<times> 'm) final_row list" where
  "final_table frame = concat (map pipeline_region (by_region (sort_key region_month frame)))"

section \<open>The priority engine of the dashboard\<close>


definition num :: "nat \<Rightarrow> fval" where
  "num n = Fin (of_nat n)"

record 'k scored_row = "'k final_row" +
  dur_norm :: fval
  depth_norm :: fval
  impact_norm :: fval
  risk_norm :: fval
  Priority_Score :: fval

definition scored_of :: "fval \<Rightarrow> fval \<Rightarrow> 'k final_row \<Rightarrow> 'k scored_row" where
  "scored_of dur_max base_max r =
     (let dn = fdiv (num (silence_duration_months r)) dur_max;
          pn = fdiv (suppression_depth_pct r) (Fin 100);
          im = fdiv (baseline_total_ma6 r) base_max;
          rn = fsub (Fin 1) (SZI r)
      in \<lparr>region_month = region_month r,
          enrol_activity = enrol_activity r,
          demo_activity = demo_activity r,
          bio_activity = bio_activity r,
          total_activity = total_activity r,
          baseline_total_ma6 = baseline_total_ma6 r,
          suppression_ratio = suppression_ratio r,
          suppression_depth_pct = suppression_depth_pct r,
          moderate_run = moderate_run r,
          severe_run = severe_run r,
          silence_duration_months = silence_duration_months r,
          SZI = SZI r,
          silence_state = silence_state r,
          alert_flag = alert_flag r,
          dur_norm = dn,
          depth_norm = pn,
          impact_norm = im,
          risk_norm = rn,
          Priority_Score =
            fadd (fadd (fadd (fmul (Fin 0.35) rn) (fmul (Fin 0.25) dn)) (fmul (Fin 0.25) pn))
                 (fmul (Fin 0.15) im)\<rparr>)"



section \<open>Auxiliary functions of the proofs\<close>

text \<open>The run loop as a recursion on the flags, from a given value of \<open>count\<close>.\<close>

fun runs_from :: "nat \<Rightarrow> bool list \<Rightarrow> nat list" where
  "runs_from c [] = []"
| "runs_from c (v # vs) = (if v then c + 1 else 0) # runs_from (if v then c + 1 else 0) vs"

text \<open>The two flag columns of a region, and its ratio column as a function of its totals.\<close>

definition m_flags :: "'k ts_row list \<Rightarrow> bool list" where
  "m_flags rows = map (\<lambda>r. flag_moderate_of (suppression_ratio r)) rows"

definition s_flags :: "'k ts_row list \<Rightarrow> bool list" where
  "s_flags rows = map (\<lambda>r. flag_severe_of (suppression_ratio r)) rows"

definition ratio_col :: "fval list \<Rightarrow> fval list" where
  "ratio_col totals = map (\<lambda>(t, b). ratio_cell t b) (zip totals (baseline_ma6 totals))"

text \<open>The frame between the two merges: the key with the two cells of the first merge.\<close>

definition df1_of :: "('k::linorder \<times> fval) list \<Rightarrow> ('k \<times> fval) list \<Rightarrow> ('k \<times> fval \<times> fval) list" where
  "df1_of e d = map (\<lambda>(k, e, d). (k, (cell e, cell d))) (merge_outer e d)"

section \<open>The run loop\<close>


lemma fold_run_step:
  "fold run_step vs (c, out) = (last (c # runs_from c vs), out @ runs_from c vs)"
  by (induction vs arbitrary: c out) (simp_all add: run_step_def Let_def)

lemma compute_consecutive_runs_eq: "compute_consecutive_runs vs = runs_from 0 vs"
  by (simp add: compute_consecutive_runs_def fold_run_step)

lemma length_runs_from [simp]: "length (runs_from c vs) = length vs"
  by (induction vs arbitrary: c) simp_all


lemma runs_from_mono:
  "c \<le> d \<Longrightarrow> list_all2 (\<lambda>a b. a \<longrightarrow> b) us vs \<Longrightarrow>
   list_all2 (\<le>) (runs_from c us) (runs_from d vs)"
proof (induction us arbitrary: c d vs)
  case Nil
  then show ?case by simp
next
  case (Cons u us)
  then obtain v vs' where vs: "vs = v # vs'" "u \<longrightarrow> v" "list_all2 (\<lambda>a b. a \<longrightarrow> b) us vs'"
    by (auto simp: list_all2_Cons1)
  have "(if u then c + 1 else 0) \<le> (if v then d + 1 else 0)"
    using vs(2) Cons.prems(1) by simp
  from Cons.IH [OF this vs(3)] this show ?case
    by (simp add: vs(1))
qed

lemma severe_imp_moderate: "flag_severe_of q \<Longrightarrow> flag_moderate_of q"
  by (cases q) (simp_all add: flag_severe_of_def flag_moderate_of_def)

lemma length_baseline [simp]: "length (baseline_ma6 xs) = length xs"
  by (simp add: baseline_ma6_def rolling_mean_def)

lemma length_step3 [simp]: "length (step3_region rows) = length rows"
  by (simp add: step3_region_def)

lemma length_ccr [simp]: "length (compute_consecutive_runs vs) = length vs"
  by (simp add: compute_consecutive_runs_eq)

lemma length_step4 [simp]: "length (step4_region rows) = length rows"
  by (simp add: step4_region_def Let_def)

lemma length_pipeline [simp]: "length (pipeline_region rows) = length rows"
  by (simp add: pipeline_region_def)

lemma baseline_nth:
  "i < length xs \<Longrightarrow> baseline_ma6 xs ! i = rolling_mean_at 6 3 xs i"
  by (simp add: baseline_ma6_def rolling_mean_def)

lemma step3_nth:
  "i < length rows \<Longrightarrow>
   step3_region rows ! i = ts_of (rows ! i) (baseline_ma6 (map total_activity rows) ! i)"
  by (simp add: step3_region_def)

lemma ts_of_sel [simp]:
  "total_activity (ts_of r b) = total_activity r"
  "baseline_total_ma6 (ts_of r b) = b"
  "suppression_ratio (ts_of r b) = ratio_cell (total_activity r) b"
  by (simp_all add: ts_of_def)

lemma step4_nth:
  "i < length rows \<Longrightarrow>
   step4_region rows ! i =
     final_of (rows ! i) (runs_from 0 (m_flags rows) ! i) (runs_from 0 (s_flags rows) ! i)"
  by (simp add: step4_region_def Let_def compute_consecutive_runs_eq m_flags_def s_flags_def)

lemma final_of_sel [simp]:
  "moderate_run (final_of r m s) = m"
  "severe_run (final_of r m s) = s"
  "silence_state (final_of r m s) = silence_state_of m s"
  "alert_flag (final_of r m s) = alert_flag_of (silence_state_of m s) m s"
  "silence_duration_months (final_of r m s) = silence_duration_of (silence_state_of m s) m s"
  "suppression_ratio (final_of r m s) = suppression_ratio r"
  "baseline_total_ma6 (final_of r m s) = baseline_total_ma6 r"
  "total_activity (final_of r m s) = total_activity r"
  "SZI (final_of r m s) = szi_of (suppression_ratio r)"
  "suppression_depth_pct (final_of r m s) = depth_pct_of (suppression_ratio r)"
  by (simp_all add: final_of_def Let_def)

lemma pipeline_nth:
  "i < length rows \<Longrightarrow>
   pipeline_region rows ! i =
     final_of (step3_region rows ! i)
       (runs_from 0 (m_flags (step3_region rows)) ! i)
       (runs_from 0 (s_flags (step3_region rows)) ! i)"
  by (simp add: pipeline_region_def step4_nth)

lemma length_flags [simp]:
  "length (m_flags rows) = length rows" "length (s_flags rows) = length rows"
  by (simp_all add: m_flags_def s_flags_def)

lemma pipeline_cols:
  assumes "i < length rows"
  shows "moderate_run (pipeline_region rows ! i) = runs_from 0 (m_flags (step3_region rows)) ! i"
    and "severe_run (pipeline_region rows ! i) = runs_from 0 (s_flags (step3_region rows)) ! i"
    and "suppression_ratio (pipeline_region rows ! i) = suppression_ratio (step3_region rows ! i)"
  using assms by (simp_all add: pipeline_nth)

lemma row_in_table:
  "r \<in> set (final_table frame) \<Longrightarrow> \<exists>rows i. i < length rows \<and> r = pipeline_region rows ! i"
  unfolding final_table_def set_concat
  by (metis (no_types, lifting) UN_E in_set_conv_nth length_pipeline imageE list.set_map)



lemma observations_Fin [simp]: "observations (map Fin xs) = xs"
  by (induction xs) simp_all






lemma fdiv_NaN [simp]: "fdiv v NaN = NaN"
  by (cases v) simp_all


lemma ratio_cell_cases:
  "ratio_cell t b =
     (if fdiv t b = NaN \<or> fdiv t b = PInf \<or> fdiv t b = NInf then Fin 0 else fdiv t b)"
  by (simp add: ratio_cell_def replace_inf0_def fillna0_def)

lemma ratio_cell_finite: "\<exists>a. ratio_cell t b = Fin a"
  by (cases "fdiv t b") (simp_all add: ratio_cell_def replace_inf0_def fillna0_def)

lemma pipeline_base:
  assumes "i < length rows"
  shows "total_activity (pipeline_region rows ! i) = total_activity (rows ! i)"
    and "baseline_total_ma6 (pipeline_region rows ! i)
           = rolling_mean_at 6 3 (map total_activity rows) i"
    and "suppression_ratio (pipeline_region rows ! i)
           = ratio_cell (total_activity (rows ! i))
               (rolling_mean_at 6 3 (map total_activity rows) i)"
  using assms by (simp_all add: pipeline_nth step3_nth baseline_nth)




lemma ratio_col_nth:
  "i < length totals \<Longrightarrow>
   ratio_col totals ! i = ratio_cell (totals ! i) (rolling_mean_at 6 3 totals i)"
  by (simp add: ratio_col_def baseline_nth)

lemma length_ratio_col [simp]: "length (ratio_col totals) = length totals"
  by (simp add: ratio_col_def)

lemma step3_ratio_col:
  "map suppression_ratio (step3_region rows) = ratio_col (map total_activity rows)"
  by (rule nth_equalityI) (simp_all add: step3_nth ratio_col_nth baseline_nth)

lemma pipeline_ratio_col:
  "map suppression_ratio (pipeline_region rows) = ratio_col (map total_activity rows)"
  by (rule nth_equalityI) (simp_all add: pipeline_base ratio_col_nth)

lemma pipeline_srun_col:
  "map severe_run (pipeline_region rows)
     = runs_from 0 (map flag_severe_of (ratio_col (map total_activity rows)))"
proof -
  have "s_flags (step3_region rows) = map flag_severe_of (ratio_col (map total_activity rows))"
    unfolding step3_ratio_col [symmetric] by (simp add: s_flags_def)
  then show ?thesis
    by (intro nth_equalityI) (simp_all add: pipeline_cols)
qed

lemma pipeline_mrun_col:
  "map moderate_run (pipeline_region rows)
     = runs_from 0 (map flag_moderate_of (ratio_col (map total_activity rows)))"
proof -
  have "m_flags (step3_region rows) = map flag_moderate_of (ratio_col (map total_activity rows))"
    unfolding step3_ratio_col [symmetric] by (simp add: m_flags_def)
  then show ?thesis
    by (intro nth_equalityI) (simp_all add: pipeline_cols)
qed

lemma pipeline_last:
  assumes "rows \<noteq> []"
  shows "silence_state (last (pipeline_region rows))
           = silence_state_of (last (map moderate_run (pipeline_region rows)))
                              (last (map severe_run (pipeline_region rows)))"
    and "alert_flag (last (pipeline_region rows))
           = alert_flag_of (silence_state (last (pipeline_region rows)))
               (last (map moderate_run (pipeline_region rows)))
               (last (map severe_run (pipeline_region rows)))"
    and "silence_duration_months (last (pipeline_region rows))
           = silence_duration_of (silence_state (last (pipeline_region rows)))
               (last (map moderate_run (pipeline_region rows)))
               (last (map severe_run (pipeline_region rows)))"
proof -
  have ne: "pipeline_region rows \<noteq> []"
    using assms length_pipeline [of rows] by (metis length_0_conv)
  have i: "length rows - 1 < length rows" using assms by simp
  show "silence_state (last (pipeline_region rows))
           = silence_state_of (last (map moderate_run (pipeline_region rows)))
                              (last (map severe_run (pipeline_region rows)))"
    and "alert_flag (last (pipeline_region rows))
           = alert_flag_of (silence_state (last (pipeline_region rows)))
               (last (map moderate_run (pipeline_region rows)))
               (last (map severe_run (pipeline_region rows)))"
    and "silence_duration_months (last (pipeline_region rows))
           = silence_duration_of (silence_state (last (pipeline_region rows)))
               (last (map moderate_run (pipeline_region rows)))
               (last (map severe_run (pipeline_region rows)))"
    using ne i by (simp_all add: last_map last_conv_nth pipeline_nth)
qed

lemma example_ratios:
  "ratio_col [Fin 100, Fin 100, Fin 100, Fin 100, Fin 30, Fin 25, Fin 20]
     = [Fin 0, Fin 0, Fin 1, Fin 1, Fin (15 / 43), Fin (30 / 91), Fin (8 / 25)]"
  by code_simp

section \<open>Classification and alerts\<close>

text \<open>
  C3. In every record of the final table the state is Severe when \<open>severe_run >= 3\<close>,
  otherwise Moderate when \<open>moderate_run >= 2\<close>, otherwise Normal: Severe takes
  precedence over Moderate.
\<close>

theorem silence_state_precedence:
  "r \<in> set (final_table frame) \<Longrightarrow>
   silence_state r =
     (if 3 \<le> severe_run r then Severe else if 2 \<le> moderate_run r then Moderate else Normal)"
proof -
  assume "r \<in> set (final_table frame)"
  then obtain rows i where "i < length rows" and r: "r = pipeline_region rows ! i"
    using row_in_table by blast
  then show ?thesis
    by (simp add: pipeline_nth silence_state_of_def)
qed

theorem silence_state_precedence_witness:
  "(final_table (merged_series
       [((1::nat, 1::nat), Fin 5), ((1, 2), Fin 7), ((1, 3), Fin 9)] [] [])) ! 1
     \<in> set (final_table (merged_series
       [((1::nat, 1::nat), Fin 5), ((1, 2), Fin 7), ((1, 3), Fin 9)] [] [])) \<and>
   severe_run ((final_table (merged_series
       [((1::nat, 1::nat), Fin 5), ((1, 2), Fin 7), ((1, 3), Fin 9)] [] [])) ! 1) = 2 \<and>
   moderate_run ((final_table (merged_series
       [((1::nat, 1::nat), Fin 5), ((1, 2), Fin 7), ((1, 3), Fin 9)] [] [])) ! 1) = 2 \<and>
   silence_state ((final_table (merged_series
       [((1::nat, 1::nat), Fin 5), ((1, 2), Fin 7), ((1, 3), Fin 9)] [] [])) ! 1) = Moderate"
proof -
  have m: "(final_table (merged_series
       [((1::nat, 1::nat), Fin 5), ((1, 2), Fin 7), ((1, 3), Fin 9)] [] [])) ! 1
     \<in> set (final_table (merged_series
       [((1::nat, 1::nat), Fin 5), ((1, 2), Fin 7), ((1, 3), Fin 9)] [] []))"
    by code_simp
  have s: "severe_run ((final_table (merged_series
       [((1::nat, 1::nat), Fin 5), ((1, 2), Fin 7), ((1, 3), Fin 9)] [] [])) ! 1) = 2"
    by code_simp
  have d: "moderate_run ((final_table (merged_series
       [((1::nat, 1::nat), Fin 5), ((1, 2), Fin 7), ((1, 3), Fin 9)] [] [])) ! 1) = 2"
    by code_simp
  from silence_state_precedence [OF m]
  have "silence_state ((final_table (merged_series
       [((1::nat, 1::nat), Fin 5), ((1, 2), Fin 7), ((1, 3), Fin 9)] [] [])) ! 1) = Moderate"
    unfolding s d by simp
  with m s d show ?thesis by blast
qed

text \<open>
  C4. In every record of the final table \<open>alert_flag\<close> is 1 exactly when the state is
  Severe, or \<open>moderate_run = 2\<close>, or \<open>severe_run = 3\<close>; it is 0 in every other record.
\<close>

theorem alert_flag_union:
  "r \<in> set (final_table frame) \<Longrightarrow>
   alert_flag r =
     (if silence_state r = Severe \<or> moderate_run r = 2 \<or> severe_run r = 3 then 1 else 0)"
proof -
  assume "r \<in> set (final_table frame)"
  then obtain rows i where "i < length rows" and r: "r = pipeline_region rows ! i"
    using row_in_table by blast
  then show ?thesis
    by (simp add: pipeline_nth alert_flag_of_def)
qed

theorem alert_flag_union_witness:
  "(final_table (merged_series
       [((1::nat, 1::nat), Fin 5), ((1, 2), Fin 7), ((1, 3), Fin 9)] [] [])) ! 1
     \<in> set (final_table (merged_series
       [((1::nat, 1::nat), Fin 5), ((1, 2), Fin 7), ((1, 3), Fin 9)] [] [])) \<and>
   moderate_run ((final_table (merged_series
       [((1::nat, 1::nat), Fin 5), ((1, 2), Fin 7), ((1, 3), Fin 9)] [] [])) ! 1) = 2 \<and>
   alert_flag ((final_table (merged_series
       [((1::nat, 1::nat), Fin 5), ((1, 2), Fin 7), ((1, 3), Fin 9)] [] [])) ! 1) = 1"
proof -
  have m: "(final_table (merged_series
       [((1::nat, 1::nat), Fin 5), ((1, 2), Fin 7), ((1, 3), Fin 9)] [] [])) ! 1
     \<in> set (final_table (merged_series
       [((1::nat, 1::nat), Fin 5), ((1, 2), Fin 7), ((1, 3), Fin 9)] [] []))"
    by code_simp
  have d: "moderate_run ((final_table (merged_series
       [((1::nat, 1::nat), Fin 5), ((1, 2), Fin 7), ((1, 3), Fin 9)] [] [])) ! 1) = 2"
    by code_simp
  from alert_flag_union [OF m]
  have "alert_flag ((final_table (merged_series
       [((1::nat, 1::nat), Fin 5), ((1, 2), Fin 7), ((1, 3), Fin 9)] [] [])) ! 1) = 1"
    unfolding d by simp
  with m d show ?thesis by blast
qed

section \<open>The run counters\<close>



text \<open>
  C10. In every record of the final table \<open>severe_run\<close> is at most \<open>moderate_run\<close>: a
  month below 0.40 is also below 0.60, so the severe streak that ends at a month is never
  longer than the moderate streak that ends there.
\<close>

theorem severe_run_le_moderate_run:
  "r \<in> set (final_table frame) \<Longrightarrow> severe_run r \<le> moderate_run r"
proof -
  assume "r \<in> set (final_table frame)"
  then obtain rows i where i: "i < length rows" and r: "r = pipeline_region rows ! i"
    using row_in_table by blast
  have "list_all2 (\<lambda>a b. a \<longrightarrow> b) (s_flags (step3_region rows)) (m_flags (step3_region rows))"
    by (simp add: s_flags_def m_flags_def list_all2_conv_all_nth severe_imp_moderate)
  then have "list_all2 (\<le>) (runs_from 0 (s_flags (step3_region rows)))
                             (runs_from 0 (m_flags (step3_region rows)))"
    by (rule runs_from_mono [OF le_refl])
  then have "runs_from 0 (s_flags (step3_region rows)) ! i
               \<le> runs_from 0 (m_flags (step3_region rows)) ! i"
    using i by (simp add: list_all2_conv_all_nth)
  then show ?thesis
    using i by (simp add: r pipeline_cols)
qed

theorem severe_run_le_moderate_run_witness:
  "(final_table (merged_series
       [((1::nat, 1::nat), Fin 5), ((1, 2), Fin 7), ((1, 3), Fin 9)] [] [])) ! 1
     \<in> set (final_table (merged_series
       [((1::nat, 1::nat), Fin 5), ((1, 2), Fin 7), ((1, 3), Fin 9)] [] [])) \<and>
   severe_run ((final_table (merged_series
       [((1::nat, 1::nat), Fin 5), ((1, 2), Fin 7), ((1, 3), Fin 9)] [] [])) ! 1)
     \<le> moderate_run ((final_table (merged_series
       [((1::nat, 1::nat), Fin 5), ((1, 2), Fin 7), ((1, 3), Fin 9)] [] [])) ! 1)"
proof -
  have m: "(final_table (merged_series
       [((1::nat, 1::nat), Fin 5), ((1, 2), Fin 7), ((1, 3), Fin 9)] [] [])) ! 1
     \<in> set (final_table (merged_series
       [((1::nat, 1::nat), Fin 5), ((1, 2), Fin 7), ((1, 3), Fin 9)] [] []))"
    by code_simp
  show ?thesis
    by (rule conjI [OF m severe_run_le_moderate_run [OF m]])
qed

section \<open>Baseline and suppression ratio\<close>

text \<open>
  C6. In every record the suppression ratio is \<open>total_activity / baseline_total_ma6\<close>,
  except that a quotient that is NaN or plus or minus infinity is replaced by 0; the
  column holds finite numbers only.
\<close>

theorem suppression_ratio_normalised:
  "r \<in> set (final_table frame) \<Longrightarrow>
   suppression_ratio r =
     (if fdiv (total_activity r) (baseline_total_ma6 r) = NaN
         \<or> fdiv (total_activity r) (baseline_total_ma6 r) = PInf
         \<or> fdiv (total_activity r) (baseline_total_ma6 r) = NInf
      then Fin 0 else fdiv (total_activity r) (baseline_total_ma6 r)) \<and>
   (\<exists>a. suppression_ratio r = Fin a)"
proof -
  assume "r \<in> set (final_table frame)"
  then obtain rows i where i: "i < length rows" and r: "r = pipeline_region rows ! i"
    using row_in_table by blast
  show ?thesis
    unfolding r pipeline_base [OF i]
    using ratio_cell_cases ratio_cell_finite by simp
qed

theorem suppression_ratio_normalised_witness:
  "(final_table (merged_series
       [((1::nat, 1::nat), Fin 5), ((1, 2), Fin 7), ((1, 3), Fin 9)] [] [])) ! 2
     \<in> set (final_table (merged_series
       [((1::nat, 1::nat), Fin 5), ((1, 2), Fin 7), ((1, 3), Fin 9)] [] [])) \<and>
   total_activity ((final_table (merged_series
       [((1::nat, 1::nat), Fin 5), ((1, 2), Fin 7), ((1, 3), Fin 9)] [] [])) ! 2) = Fin 9 \<and>
   baseline_total_ma6 ((final_table (merged_series
       [((1::nat, 1::nat), Fin 5), ((1, 2), Fin 7), ((1, 3), Fin 9)] [] [])) ! 2) = Fin 7 \<and>
   suppression_ratio ((final_table (merged_series
       [((1::nat, 1::nat), Fin 5), ((1, 2), Fin 7), ((1, 3), Fin 9)] [] [])) ! 2) = Fin (9 / 7)"
proof -
  have m: "(final_table (merged_series
       [((1::nat, 1::nat), Fin 5), ((1, 2), Fin 7), ((1, 3), Fin 9)] [] [])) ! 2
     \<in> set (final_table (merged_series
       [((1::nat, 1::nat), Fin 5), ((1, 2), Fin 7), ((1, 3), Fin 9)] [] []))"
    by code_simp
  have t: "total_activity ((final_table (merged_series
       [((1::nat, 1::nat), Fin 5), ((1, 2), Fin 7), ((1, 3), Fin 9)] [] [])) ! 2) = Fin 9"
    by code_simp
  have b: "baseline_total_ma6 ((final_table (merged_series
       [((1::nat, 1::nat), Fin 5), ((1, 2), Fin 7), ((1, 3), Fin 9)] [] [])) ! 2) = Fin 7"
    by code_simp
  from suppression_ratio_normalised [OF m]
  have "suppression_ratio ((final_table (merged_series
       [((1::nat, 1::nat), Fin 5), ((1, 2), Fin 7), ((1, 3), Fin 9)] [] [])) ! 2) = Fin (9 / 7)"
    unfolding t b by simp
  with m t b show ?thesis by blast
qed





section \<open>The example scenario\<close>

text \<open>
  C1, as the code has it. For a region whose totals over seven months are
  100, 100, 100, 100, 30, 25, 20, the severe flag is T, T, F, F, T, T, T and
  \<open>severe_run\<close> is 1, 2, 0, 0, 1, 2, 3: the first two months have no baseline, their ratio
  is 0 and they are flagged. The last month is Severe with \<open>alert_flag = 1\<close> and
  \<open>silence_duration_months = 3\<close>.
\<close>

theorem example_scenario:
  "map total_activity rows = [Fin 100, Fin 100, Fin 100, Fin 100, Fin 30, Fin 25, Fin 20] \<Longrightarrow>
   map (flag_severe_of \<circ> suppression_ratio) (pipeline_region rows)
     = [True, True, False, False, True, True, True] \<and>
   map severe_run (pipeline_region rows) = [1, 2, 0, 0, 1, 2, 3] \<and>
   silence_state (last (pipeline_region rows)) = Severe \<and>
   alert_flag (last (pipeline_region rows)) = 1 \<and>
   silence_duration_months (last (pipeline_region rows)) = 3"
proof -
  assume t: "map total_activity rows = [Fin 100, Fin 100, Fin 100, Fin 100, Fin 30, Fin 25, Fin 20]"
  then have ne: "rows \<noteq> []" by auto
  have q: "map suppression_ratio (pipeline_region rows)
             = [Fin 0, Fin 0, Fin 1, Fin 1, Fin (15 / 43), Fin (30 / 91), Fin (8 / 25)]"
    by (simp only: pipeline_ratio_col t example_ratios)
  have f: "map (flag_severe_of \<circ> suppression_ratio) (pipeline_region rows)
             = [True, True, False, False, True, True, True]"
    unfolding map_map [symmetric] q by (simp add: flag_severe_of_def)
  have s: "map severe_run (pipeline_region rows) = [1, 2, 0, 0, 1, 2, 3]"
    unfolding pipeline_srun_col t example_ratios by (simp add: flag_severe_of_def)
  have m: "map moderate_run (pipeline_region rows) = [1, 2, 0, 0, 1, 2, 3]"
    unfolding pipeline_mrun_col t example_ratios by (simp add: flag_moderate_of_def)
  have st: "silence_state (last (pipeline_region rows)) = Severe"
    unfolding pipeline_last(1) [OF ne] m s by (simp add: silence_state_of_def)
  have al: "alert_flag (last (pipeline_region rows)) = 1"
    unfolding pipeline_last(2) [OF ne] m s st by (simp add: alert_flag_of_def)
  have du: "silence_duration_months (last (pipeline_region rows)) = 3"
    unfolding pipeline_last(3) [OF ne] m s st by (simp add: silence_duration_of_def)
  from f s st al du show ?thesis by simp
qed

theorem example_scenario_witness:
  "map total_activity (merged_series
       [((1::nat, 1::nat), Fin 100), ((1, 2), Fin 100), ((1, 3), Fin 100), ((1, 4), Fin 100),
        ((1, 5), Fin 30), ((1, 6), Fin 25), ((1, 7), Fin 20)] [] [])
     = [Fin 100, Fin 100, Fin 100, Fin 100, Fin 30, Fin 25, Fin 20] \<and>
   map (flag_severe_of \<circ> suppression_ratio) (pipeline_region (merged_series
       [((1::nat, 1::nat), Fin 100), ((1, 2), Fin 100), ((1, 3), Fin 100), ((1, 4), Fin 100),
        ((1, 5), Fin 30), ((1, 6), Fin 25), ((1, 7), Fin 20)] [] []))
     = [True, True, False, False, True, True, True] \<and>
   map severe_run (pipeline_region (merged_series
       [((1::nat, 1::nat), Fin 100), ((1, 2), Fin 100), ((1, 3), Fin 100), ((1, 4), Fin 100),
        ((1, 5), Fin 30), ((1, 6), Fin 25), ((1, 7), Fin 20)] [] []))
     = [1, 2, 0, 0, 1, 2, 3] \<and>
   silence_state (last (pipeline_region (merged_series
       [((1::nat, 1::nat), Fin 100), ((1, 2), Fin 100), ((1, 3), Fin 100), ((1, 4), Fin 100),
        ((1, 5), Fin 30), ((1, 6), Fin 25), ((1, 7), Fin 20)] [] []))) = Severe \<and>
   alert_flag (last (pipeline_region (merged_series
       [((1::nat, 1::nat), Fin 100), ((1, 2), Fin 100), ((1, 3), Fin 100), ((1, 4), Fin 100),
        ((1, 5), Fin 30), ((1, 6), Fin 25), ((1, 7), Fin 20)] [] []))) = 1 \<and>
   silence_duration_months (last (pipeline_region (merged_series
       [((1::nat, 1::nat), Fin 100), ((1, 2), Fin 100), ((1, 3), Fin 100), ((1, 4), Fin 100),
        ((1, 5), Fin 30), ((1, 6), Fin 25), ((1, 7), Fin 20)] [] []))) = 3"
proof -
  have h: "map total_activity (merged_series
       [((1::nat, 1::nat), Fin 100), ((1, 2), Fin 100), ((1, 3), Fin 100), ((1, 4), Fin 100),
        ((1, 5), Fin 30), ((1, 6), Fin 25), ((1, 7), Fin 20)] [] [])
     = [Fin 100, Fin 100, Fin 100, Fin 100, Fin 30, Fin 25, Fin 20]"
    by code_simp
  show ?thesis
    by (rule conjI [OF h example_scenario [OF h]])
qed

text \<open>
  The flags F, F, F, F, T, T, T and the runs 0, 0, 0, 0, 1, 2, 3 are not what the pipeline
  gives on these totals.
\<close>

theorem example_scenario_counterexample:
  "\<not> (map (flag_severe_of \<circ> suppression_ratio)
        (pipeline_region
          (merged_series
            [((1::nat, 1::nat), Fin 100), ((1, 2), Fin 100), ((1, 3), Fin 100), ((1, 4), Fin 100),
             ((1, 5), Fin 30), ((1, 6), Fin 25), ((1, 7), Fin 20)] [] []))
        = [False, False, False, False, True, True, True] \<and>
      map severe_run
        (pipeline_region
          (merged_series
            [((1::nat, 1::nat), Fin 100), ((1, 2), Fin 100), ((1, 3), Fin 100), ((1, 4), Fin 100),
             ((1, 5), Fin 30), ((1, 6), Fin 25), ((1, 7), Fin 20)] [] []))
        = [0, 0, 0, 0, 1, 2, 3])"
  by code_simp

section \<open>The merged series\<close>

lemma map_insort_key: "map f (insort_key f x xs) = insort (f x) (map f xs)"
  by (induction xs) simp_all

lemma map_sort_key: "map f (sort_key f xs) = sort (map f xs)"
  by (induction xs) (simp_all add: map_insort_key)

lemma keys_groupby: "map fst (groupby_sum raw) = sort (remdups (map fst raw))"
  by (simp add: groupby_sum_def comp_def)

lemma distinct_groupby: "distinct (map fst (groupby_sum raw))"
  by (simp add: keys_groupby)

lemma keys_merge_outer:
  "set (map fst (merge_outer l r)) = fst ` set l \<union> fst ` set r"
proof -
  have "set (map fst (merge_outer l r))
          = fst ` set l \<union> fst ` {x \<in> set r. map_of l (fst x) = None}"
    by (auto simp: merge_outer_def image_Un image_image case_prod_beta)
  also have "\<dots> = fst ` set l \<union> fst ` set r"
    by (auto simp: map_of_eq_None_iff image_iff) 
  finally show ?thesis .
qed

lemma distinct_merge_outer:
  assumes "distinct (map fst l)" and "distinct (map fst r)"
  shows "distinct (map fst (merge_outer l r))"
proof -
  have "distinct (map fst (filter (\<lambda>(k, b). map_of l k = None) r))"
    using assms(2) by (simp add: distinct_map_filter)
  then have "distinct (map fst l @ map fst (filter (\<lambda>(k, b). map_of l k = None) r))"
    using assms(1) by (force simp: map_of_eq_None_iff)
  then show ?thesis
    by (simp add: merge_outer_def map_sort_key comp_def case_prod_beta)
qed

lemma merge_outer_entry:
  assumes "distinct (map fst l)" and "distinct (map fst r)"
    and "(k, a, b) \<in> set (merge_outer l r)"
  shows "a = map_of l k" and "b = map_of r k"
  using assms by (auto simp: merge_outer_def)

lemma count_one:
  "distinct (map f xs) \<Longrightarrow> k \<in> f ` set xs \<Longrightarrow> length (filter (\<lambda>x. f x = k) xs) = 1"
proof (induction xs)
  case Nil
  then show ?case by simp
next
  case (Cons x xs)
  show ?case
  proof (cases "f x = k")
    case True
    with Cons.prems have "k \<notin> f ` set xs"
      by simp
    then have "filter (\<lambda>y. f y = k) xs = []"
      by (auto simp: filter_empty_conv)
    with True show ?thesis by simp
  next
    case False
    with Cons show ?thesis by auto
  qed
qed


lemma keys_df1: "map fst (df1_of e d) = map fst (merge_outer e d)"
  by (simp add: df1_of_def comp_def case_prod_beta)

lemma df1_entry:
  assumes "distinct (map fst e)" and "distinct (map fst d)"
  shows "map_of (df1_of e d) k =
     (if k \<in> fst ` set e \<union> fst ` set d then Some (cell (map_of e k), cell (map_of d k)) else None)"
proof (cases "k \<in> fst ` set e \<union> fst ` set d")
  case False
  then have "k \<notin> fst ` set (df1_of e d)"
    using keys_merge_outer [of e d] keys_df1 [of e d] by (metis set_map)
  then show ?thesis using False by (simp add: map_of_eq_None_iff)
next
  case True
  then have "k \<in> set (map fst (merge_outer e d))"
    using keys_merge_outer [of e d] by simp
  then obtain a b where m: "(k, a, b) \<in> set (merge_outer e d)"
    by force
  then have ab: "a = map_of e k" "b = map_of d k"
    using merge_outer_entry [OF assms] by blast+
  have "(k, (cell a, cell b)) \<in> set (df1_of e d)"
    using m by (force simp: df1_of_def)
  moreover have "distinct (map fst (df1_of e d))"
    by (simp add: keys_df1 distinct_merge_outer [OF assms])
  ultimately have "map_of (df1_of e d) k = Some (cell a, cell b)"
    by simp
  with True ab show ?thesis by simp
qed

lemma merged_series_alt:
  "merged_series e d b =
     map (\<lambda>(k, ed, b). case ed of None \<Rightarrow> filled_row k NaN NaN (cell b)
                               | Some (e, d) \<Rightarrow> filled_row k e d (cell b))
         (merge_outer (df1_of e d) b)"
  by (simp add: merged_series_def df1_of_def Let_def)

lemma filled_row_sel [simp]:
  "region_month (filled_row k e d b) = k"
  "enrol_activity (filled_row k e d b) = fillna0 e"
  "demo_activity (filled_row k e d b) = fillna0 d"
  "bio_activity (filled_row k e d b) = fillna0 b"
  "total_activity (filled_row k e d b) = fadd (fadd (fillna0 e) (fillna0 d)) (fillna0 b)"
  by (simp_all add: filled_row_def Let_def)

lemma keys_merged_series:
  "map region_month (merged_series e d b) = map fst (merge_outer (df1_of e d) b)"
  by (auto simp: merged_series_alt split: option.splits prod.splits)

lemma fill_cell: "fillna0 (cell c) = (case c of None \<Rightarrow> Fin 0 | Some v \<Rightarrow> fillna0 v)"
  by (simp add: cell_def fillna0_def split: option.splits)

lemma merged_series_row:
  assumes de: "distinct (map fst e)" and dd: "distinct (map fst d)" and db: "distinct (map fst b)"
    and r: "r \<in> set (merged_series e d b)"
  shows "enrol_activity r = fillna0 (cell (map_of e (region_month r)))"
    and "demo_activity r = fillna0 (cell (map_of d (region_month r)))"
    and "bio_activity r = fillna0 (cell (map_of b (region_month r)))"
    and "total_activity r = fadd (fadd (enrol_activity r) (demo_activity r)) (bio_activity r)"
proof -
  from r obtain k ed bb where m: "(k, ed, bb) \<in> set (merge_outer (df1_of e d) b)"
    and rk: "r = (case ed of None \<Rightarrow> filled_row k NaN NaN (cell bb)
                           | Some (e, d) \<Rightarrow> filled_row k e d (cell bb))"
    by (auto simp: merged_series_alt)
  have d1: "distinct (map fst (df1_of e d))"
    by (simp add: keys_df1 distinct_merge_outer [OF de dd])
  have ed: "ed = map_of (df1_of e d) k" and bb: "bb = map_of b k"
    using merge_outer_entry [OF d1 db m] by blast+
  have "r = filled_row k (cell (map_of e k)) (cell (map_of d k)) (cell (map_of b k))"
  proof (cases "k \<in> fst ` set e \<union> fst ` set d")
    case True
    then have "ed = Some (cell (map_of e k), cell (map_of d k))"
      using ed df1_entry [OF de dd, of k] by simp
    then show ?thesis
      using rk bb by simp
  next
    case False
    then have "ed = None"
      using ed df1_entry [OF de dd, of k] by simp
    moreover from False have "map_of e k = None" "map_of d k = None"
      by (simp_all add: map_of_eq_None_iff)
    ultimately show ?thesis
      using rk bb by (simp add: cell_def)
  qed
  then show "enrol_activity r = fillna0 (cell (map_of e (region_month r)))"
    and "demo_activity r = fillna0 (cell (map_of d (region_month r)))"
    and "bio_activity r = fillna0 (cell (map_of b (region_month r)))"
    and "total_activity r = fadd (fadd (enrol_activity r) (demo_activity r)) (bio_activity r)"
    by simp_all
qed

text \<open>
  C8. The keys of the merged series are the keys of the three monthly aggregates taken
  together, and each of these keys has exactly one row. In every row an activity with no
  row in its aggregate is 0, an activity with a row there is that row's value (NaN filled
  with 0), and \<open>total_activity\<close> is the sum of the three activities after the fill.
\<close>

theorem merge_completeness:
  "set (map region_month
         (merged_series (groupby_sum enrol) (groupby_sum demo) (groupby_sum bio)))
     = fst ` set (groupby_sum enrol) \<union> fst ` set (groupby_sum demo)
         \<union> fst ` set (groupby_sum bio) \<and>
   (\<forall>k \<in> fst ` set (groupby_sum enrol) \<union> fst ` set (groupby_sum demo)
           \<union> fst ` set (groupby_sum bio).
      length (filter (\<lambda>r. region_month r = k)
        (merged_series (groupby_sum enrol) (groupby_sum demo) (groupby_sum bio))) = 1) \<and>
   (\<forall>r \<in> set (merged_series (groupby_sum enrol) (groupby_sum demo) (groupby_sum bio)).
      enrol_activity r =
        (case map_of (groupby_sum enrol) (region_month r) of
           None \<Rightarrow> Fin 0 | Some v \<Rightarrow> fillna0 v) \<and>
      demo_activity r =
        (case map_of (groupby_sum demo) (region_month r) of
           None \<Rightarrow> Fin 0 | Some v \<Rightarrow> fillna0 v) \<and>
      bio_activity r =
        (case map_of (groupby_sum bio) (region_month r) of
           None \<Rightarrow> Fin 0 | Some v \<Rightarrow> fillna0 v) \<and>
      total_activity r = fadd (fadd (enrol_activity r) (demo_activity r)) (bio_activity r))"
proof -
  let ?e = "groupby_sum enrol" and ?d = "groupby_sum demo" and ?b = "groupby_sum bio"
  let ?M = "merged_series ?e ?d ?b"
  note de = distinct_groupby [of enrol] and dd = distinct_groupby [of demo]
    and db = distinct_groupby [of bio]
  have keys: "set (map region_month ?M) = fst ` set ?e \<union> fst ` set ?d \<union> fst ` set ?b"
    unfolding keys_merged_series keys_merge_outer
    using keys_merge_outer [of ?e ?d] keys_df1 [of ?e ?d] by (metis set_map)
  have dist: "distinct (map region_month ?M)"
    unfolding keys_merged_series
    by (rule distinct_merge_outer) (simp_all add: keys_df1 distinct_merge_outer de dd db)
  have once: "\<forall>k \<in> fst ` set ?e \<union> fst ` set ?d \<union> fst ` set ?b.
      length (filter (\<lambda>r. region_month r = k) ?M) = 1"
  proof
    fix k assume "k \<in> fst ` set ?e \<union> fst ` set ?d \<union> fst ` set ?b"
    then have "k \<in> region_month ` set ?M" using keys by simp
    then show "length (filter (\<lambda>r. region_month r = k) ?M) = 1"
      by (rule count_one [OF dist])
  qed
  have rows: "\<forall>r \<in> set ?M.
      enrol_activity r = (case map_of ?e (region_month r) of None \<Rightarrow> Fin 0 | Some v \<Rightarrow> fillna0 v) \<and>
      demo_activity r = (case map_of ?d (region_month r) of None \<Rightarrow> Fin 0 | Some v \<Rightarrow> fillna0 v) \<and>
      bio_activity r = (case map_of ?b (region_month r) of None \<Rightarrow> Fin 0 | Some v \<Rightarrow> fillna0 v) \<and>
      total_activity r = fadd (fadd (enrol_activity r) (demo_activity r)) (bio_activity r)"
    using merged_series_row [OF de dd db] by (simp add: fill_cell)
  from keys once rows show ?thesis by blast
qed

theorem merge_completeness_witness:
  "(merged_series (groupby_sum [((1::nat, 1::nat), Fin 3), ((1, 1), Fin 4), ((1, 2), Fin 5)])
       (groupby_sum [((1::nat, 2::nat), Fin 2)]) (groupby_sum [((2::nat, 1::nat), Fin 6)])) ! 0 \<in> set (merged_series (groupby_sum [((1::nat, 1::nat), Fin 3), ((1, 1), Fin 4), ((1, 2), Fin 5)])
       (groupby_sum [((1::nat, 2::nat), Fin 2)]) (groupby_sum [((2::nat, 1::nat), Fin 6)])) \<and>
   region_month ((merged_series (groupby_sum [((1::nat, 1::nat), Fin 3), ((1, 1), Fin 4), ((1, 2), Fin 5)])
       (groupby_sum [((1::nat, 2::nat), Fin 2)]) (groupby_sum [((2::nat, 1::nat), Fin 6)])) ! 0) = (1, 1) \<and>
   map_of (groupby_sum [((2::nat, 1::nat), Fin 6)]) (1, 1) = None \<and>
   bio_activity ((merged_series (groupby_sum [((1::nat, 1::nat), Fin 3), ((1, 1), Fin 4), ((1, 2), Fin 5)])
       (groupby_sum [((1::nat, 2::nat), Fin 2)]) (groupby_sum [((2::nat, 1::nat), Fin 6)])) ! 0) = Fin 0 \<and>
   (2, 1) \<in> fst ` set (groupby_sum [((1::nat, 1::nat), Fin 3), ((1, 1), Fin 4), ((1, 2), Fin 5)])
       \<union> fst ` set (groupby_sum [((1::nat, 2::nat), Fin 2)])
       \<union> fst ` set (groupby_sum [((2::nat, 1::nat), Fin 6)]) \<and>
   length (filter (\<lambda>r. region_month r = (2, 1)) (merged_series (groupby_sum [((1::nat, 1::nat), Fin 3), ((1, 1), Fin 4), ((1, 2), Fin 5)])
       (groupby_sum [((1::nat, 2::nat), Fin 2)]) (groupby_sum [((2::nat, 1::nat), Fin 6)]))) = 1"
proof -
  note T = merge_completeness [of "[((1::nat, 1::nat), Fin 3), ((1, 1), Fin 4), ((1, 2), Fin 5)]" "[((1::nat, 2::nat), Fin 2)]" "[((2::nat, 1::nat), Fin 6)]"]
  have m: "(merged_series (groupby_sum [((1::nat, 1::nat), Fin 3), ((1, 1), Fin 4), ((1, 2), Fin 5)])
       (groupby_sum [((1::nat, 2::nat), Fin 2)]) (groupby_sum [((2::nat, 1::nat), Fin 6)])) ! 0 \<in> set (merged_series (groupby_sum [((1::nat, 1::nat), Fin 3), ((1, 1), Fin 4), ((1, 2), Fin 5)])
       (groupby_sum [((1::nat, 2::nat), Fin 2)]) (groupby_sum [((2::nat, 1::nat), Fin 6)]))"
    by code_simp
  have k: "region_month ((merged_series (groupby_sum [((1::nat, 1::nat), Fin 3), ((1, 1), Fin 4), ((1, 2), Fin 5)])
       (groupby_sum [((1::nat, 2::nat), Fin 2)]) (groupby_sum [((2::nat, 1::nat), Fin 6)])) ! 0) = (1, 1)"
    by code_simp
  have n: "map_of (groupby_sum [((2::nat, 1::nat), Fin 6)]) (1, 1) = None"
    by code_simp
  have u: "(2, 1) \<in> fst ` set (groupby_sum [((1::nat, 1::nat), Fin 3), ((1, 1), Fin 4), ((1, 2), Fin 5)])
       \<union> fst ` set (groupby_sum [((1::nat, 2::nat), Fin 2)])
       \<union> fst ` set (groupby_sum [((2::nat, 1::nat), Fin 6)])"
    by code_simp
  from T [THEN conjunct2, THEN conjunct2, THEN bspec, OF m]
  have "bio_activity ((merged_series (groupby_sum [((1::nat, 1::nat), Fin 3), ((1, 1), Fin 4), ((1, 2), Fin 5)])
       (groupby_sum [((1::nat, 2::nat), Fin 2)]) (groupby_sum [((2::nat, 1::nat), Fin 6)])) ! 0) =
      (case map_of (groupby_sum [((2::nat, 1::nat), Fin 6)]) (region_month ((merged_series (groupby_sum [((1::nat, 1::nat), Fin 3), ((1, 1), Fin 4), ((1, 2), Fin 5)])
       (groupby_sum [((1::nat, 2::nat), Fin 2)]) (groupby_sum [((2::nat, 1::nat), Fin 6)])) ! 0)) of
         None \<Rightarrow> Fin 0 | Some v \<Rightarrow> fillna0 v)"
    by blast
  then have b: "bio_activity ((merged_series (groupby_sum [((1::nat, 1::nat), Fin 3), ((1, 1), Fin 4), ((1, 2), Fin 5)])
       (groupby_sum [((1::nat, 2::nat), Fin 2)]) (groupby_sum [((2::nat, 1::nat), Fin 6)])) ! 0) = Fin 0"
    unfolding k n by simp
  note c = T [THEN conjunct2, THEN conjunct1, THEN bspec, OF u]
  from m k n b u c show ?thesis by blast
qed

section \<open>The priority score\<close>

lemma scored_of_sel [simp]:
  "Priority_Score (scored_of dm bm r) =
     fadd (fadd (fadd (fmul (Fin 0.35) (fsub (Fin 1) (SZI r)))
                      (fmul (Fin 0.25) (fdiv (num (silence_duration_months r)) dm)))
                (fmul (Fin 0.25) (fdiv (suppression_depth_pct r) (Fin 100))))
          (fmul (Fin 0.15) (fdiv (baseline_total_ma6 r) bm))"
  "SZI (scored_of dm bm r) = SZI r"
  "silence_duration_months (scored_of dm bm r) = silence_duration_months r"
  "suppression_depth_pct (scored_of dm bm r) = suppression_depth_pct r"
  "baseline_total_ma6 (scored_of dm bm r) = baseline_total_ma6 r"
  by (simp_all add: scored_of_def Let_def)

lemma truncate_scored_of [simp]: "final_row.truncate (scored_of dm bm r) = r"
  by (cases r) (simp add: scored_of_def Let_def final_row.truncate_def)



end
